theory Spec2Isabelle
  imports Complex_Main "HOL-Library.Word"
begin

section \<open>The background script of the image-as-PNG downloader\<close>

text \<open>
  A shallow embedding of \<^verbatim>\<open>src/background.js\<close>. The script is a chain of calls into
  the browser: \<^verbatim>\<open>fetch\<close>, \<^verbatim>\<open>createImageBitmap\<close>, a 2D canvas, \<^verbatim>\<open>convertToBlob\<close>,
  \<^verbatim>\<open>FileReader\<close>, \<^verbatim>\<open>chrome.downloads\<close>, \<^verbatim>\<open>chrome.scripting\<close> and
  \<^verbatim>\<open>chrome.contextMenus\<close>. What the browser answers is an input of the model (the record
  \<open>platform\<close>); what the script asks of the browser is its output (a list of \<open>effect\<close>s, in
  the order of the calls). A rejected promise or a thrown exception is the left summand of a
  sum type.
\<close>

subsection \<open>Constants\<close>

definition CONTEXT_MENU_ID :: string where
  "CONTEXT_MENU_ID = ''download-image-as-png''"

definition CONTEXT_MENU_TITLE :: string where
  "CONTEXT_MENU_TITLE = ''Download image as PNG''"

subsection \<open>Values exchanged with the browser\<close>

text \<open>A JavaScript error object; the script reads nothing but its \<^verbatim>\<open>message\<close>.\<close>

datatype js_error = JsError (message: string)

record blob =
  blob_type :: string
  blob_bytes :: "8 word list"

text \<open>
  A \<^verbatim>\<open>Response\<close>: its \<^verbatim>\<open>ok\<close> flag, its \<^verbatim>\<open>statusText\<close> and what \<^verbatim>\<open>response.blob()\<close>
  settles with.
\<close>

record response =
  ok :: bool
  statusText :: string
  body :: "js_error + blob"

text \<open>One RGBA sample, eight bits a channel, as in \<^verbatim>\<open>ImageData\<close>.\<close>

record rgba =
  red :: "8 word"
  green :: "8 word"
  blue :: "8 word"
  alpha :: "8 word"

text \<open>An \<^verbatim>\<open>ImageBitmap\<close>: its size and its samples, row by row.\<close>

record image_bitmap =
  bitmap_width :: nat
  bitmap_height :: nat
  bitmap_data :: "rgba list"

record offscreen_canvas =
  canvas_width :: nat
  canvas_height :: nat
  canvas_data :: "rgba list"

text \<open>The 2D context: the canvas it draws on and the current \<^verbatim>\<open>fillStyle\<close>.\<close>

record context2d =
  ctx_canvas :: offscreen_canvas
  fillStyle :: rgba

text \<open>The three events a \<^verbatim>\<open>FileReader\<close> ends a read with.\<close>

datatype reader_event = Load string | ReaderError js_error | Abort

text \<open>The fields of \<^verbatim>\<open>new Date()\<close> that the script reads, in local time.\<close>

record date =
  getFullYear :: int
  getMonth :: nat
  getDate :: nat

record download_options =
  url :: string
  filename :: string
  saveAs :: bool

text \<open>
  The browser as the script sees it during one click. \<open>random\<close> is the value of
  \<^verbatim>\<open>Math.random()\<close>, a 53-bit integer \<open>k\<close> standing for the number \<open>k / 2\<^sup>5\<^sup>3\<close>, as the
  browser's engine draws it.
  \<open>download_outcome\<close> is what the promise of \<^verbatim>\<open>chrome.downloads.download\<close> settles with;
  the script never reads it.
\<close>

record platform =
  fetch :: "string \<Rightarrow> js_error + response"
  createImageBitmap :: "blob \<Rightarrow> js_error + image_bitmap"
  convertToBlob :: "offscreen_canvas \<Rightarrow> string \<Rightarrow> js_error + blob"
  readAsDataURL :: "blob \<Rightarrow> reader_event"
  now :: date
  random :: "53 word"
  download_outcome :: "download_options \<Rightarrow> js_error + int"

text \<open>The calls the script makes that leave it, in the order it makes them.\<close>

datatype effect =
    Fetch string
  | CreateImageBitmap blob
  | ConvertToBlob offscreen_canvas string
  | ReadAsDataURL blob
  | ConsoleError string js_error
  | Download download_options
  | ExecuteScriptAlert int string

text \<open>
  The event of \<^verbatim>\<open>chrome.contextMenus.onClicked\<close>. A menu item identifier is a string or a
  number; \<^verbatim>\<open>srcUrl\<close> is absent (\<open>None\<close>) or a string.
\<close>

datatype menu_item_id = StringId string | NumberId int

record on_click_data =
  menuItemId :: menu_item_id
  srcUrl :: "string option"

text \<open>
  The tab of the click, of which the script reads the \<^verbatim>\<open>id\<close>. The browser passes no
  tab for a click that did not take place in one: the handler's second argument is then
  \<^verbatim>\<open>undefined\<close>, here \<open>None\<close>.
\<close>

record tab =
  tab_id :: int

subsection \<open>Sequencing: await, try and catch\<close>

text \<open>
  An asynchronous computation is the list of calls it made together with the value it
  resolved with (\<open>Inr\<close>) or the error it rejected with (\<open>Inl\<close>).
\<close>

type_synonym 'a task = "effect list \<times> (js_error + 'a)"

definition call :: "effect \<Rightarrow> (js_error + 'a) \<Rightarrow> 'a task" where
  "call eff res = ([eff], res)"

definition resolve :: "'a \<Rightarrow> 'a task" where
  "resolve x = ([], Inr x)"

definition await :: "'a task \<Rightarrow> ('a \<Rightarrow> 'b task) \<Rightarrow> 'b task" where
  "await m f =
     (case m of
        (tr, Inl e) \<Rightarrow> (tr, Inl e)
      | (tr, Inr x) \<Rightarrow> (case f x of (tr', r) \<Rightarrow> (tr @ tr', r)))"

definition try_catch :: "'a task \<Rightarrow> (js_error \<Rightarrow> 'a task) \<Rightarrow> 'a task" where
  "try_catch m h =
     (case m of
        (tr, Inl e) \<Rightarrow> (case h e of (tr', r) \<Rightarrow> (tr @ tr', r))
      | (tr, Inr x) \<Rightarrow> (tr, Inr x))"

subsection \<open>The canvas\<close>

definition white :: rgba where
  "white = \<lparr>red = 255, green = 255, blue = 255, alpha = 255\<rparr>"

definition black :: rgba where
  "black = \<lparr>red = 0, green = 0, blue = 0, alpha = 255\<rparr>"

definition transparent_black :: rgba where
  "transparent_black = \<lparr>red = 0, green = 0, blue = 0, alpha = 0\<rparr>"

text \<open>
  Source-over compositing of a sample \<open>s\<close> onto a sample \<open>d\<close>, on straight (not
  premultiplied) eight-bit channels: the resulting coverage is \<open>a\<^sub>s + a\<^sub>d (1 - a\<^sub>s)\<close> and
  each colour is the coverage-weighted mean of the two colours, rounded to the nearest
  integer. \<open>over_weight\<close> is the resulting coverage on the scale of 255 times 255.
\<close>

definition over_weight :: "nat \<Rightarrow> nat \<Rightarrow> nat" where
  "over_weight sa da = 255 * sa + da * (255 - sa)"

definition over_alpha :: "nat \<Rightarrow> nat \<Rightarrow> nat" where
  "over_alpha sa da = (2 * over_weight sa da + 255) div (2 * 255)"

definition over_channel :: "nat \<Rightarrow> nat \<Rightarrow> nat \<Rightarrow> nat \<Rightarrow> nat" where
  "over_channel sc sa dc da =
     (if over_weight sa da = 0 then 0
      else (2 * (sc * sa * 255 + dc * da * (255 - sa)) + over_weight sa da)
             div (2 * over_weight sa da))"

definition source_over :: "rgba \<Rightarrow> rgba \<Rightarrow> rgba" where
  "source_over s d =
     \<lparr>red = of_nat (over_channel (unat (red s)) (unat (alpha s)) (unat (red d)) (unat (alpha d))),
      green = of_nat (over_channel (unat (green s)) (unat (alpha s)) (unat (green d)) (unat (alpha d))),
      blue = of_nat (over_channel (unat (blue s)) (unat (alpha s)) (unat (blue d)) (unat (alpha d))),
      alpha = of_nat (over_alpha (unat (alpha s)) (unat (alpha d)))\<rparr>"

text \<open>\<^verbatim>\<open>new OffscreenCanvas(w, h)\<close>: every sample transparent black.\<close>

definition new_OffscreenCanvas :: "nat \<Rightarrow> nat \<Rightarrow> offscreen_canvas" where
  "new_OffscreenCanvas w h =
     \<lparr>canvas_width = w, canvas_height = h, canvas_data = replicate (w * h) transparent_black\<rparr>"

text \<open>\<^verbatim>\<open>canvas.getContext('2d')\<close>: a fresh context fills with black.\<close>

definition getContext2d :: "offscreen_canvas \<Rightarrow> context2d" where
  "getContext2d canvas = \<lparr>ctx_canvas = canvas, fillStyle = black\<rparr>"

definition bitmap_pixel :: "image_bitmap \<Rightarrow> nat \<Rightarrow> nat \<Rightarrow> rgba" where
  "bitmap_pixel img x y = bitmap_data img ! (y * bitmap_width img + x)"

definition canvas_pixel :: "offscreen_canvas \<Rightarrow> nat \<Rightarrow> nat \<Rightarrow> rgba" where
  "canvas_pixel canvas x y = canvas_data canvas ! (y * canvas_width canvas + x)"

text \<open>
  Painting: \<open>src x y\<close> is the sample to composite onto the canvas at column \<open>x\<close> of row
  \<open>y\<close>, or \<open>None\<close> where the drawing operation does not reach.
\<close>

definition paint :: "(nat \<Rightarrow> nat \<Rightarrow> rgba option) \<Rightarrow> offscreen_canvas \<Rightarrow> offscreen_canvas" where
  "paint src canvas =
     canvas\<lparr>canvas_data :=
       map (\<lambda>i. case src (i mod canvas_width canvas) (i div canvas_width canvas) of
                  None \<Rightarrow> canvas_data canvas ! i
                | Some s \<Rightarrow> source_over s (canvas_data canvas ! i))
           [0..<length (canvas_data canvas)]\<rparr>"

text \<open>\<^verbatim>\<open>ctx.fillRect(x, y, w, h)\<close> with the current fill style.\<close>

definition fillRect :: "context2d \<Rightarrow> nat \<Rightarrow> nat \<Rightarrow> nat \<Rightarrow> nat \<Rightarrow> context2d" where
  "fillRect ctx x y w h =
     ctx\<lparr>ctx_canvas :=
       paint (\<lambda>px py. if x \<le> px \<and> px < x + w \<and> y \<le> py \<and> py < y + h
                       then Some (fillStyle ctx) else None)
             (ctx_canvas ctx)\<rparr>"

text \<open>\<^verbatim>\<open>ctx.drawImage(img, dx, dy)\<close>: the bitmap at its own size, its corner at \<open>(dx, dy)\<close>.\<close>

definition drawImage :: "context2d \<Rightarrow> image_bitmap \<Rightarrow> nat \<Rightarrow> nat \<Rightarrow> context2d" where
  "drawImage ctx img dx dy =
     ctx\<lparr>ctx_canvas :=
       paint (\<lambda>px py. if dx \<le> px \<and> px < dx + bitmap_width img \<and>
                          dy \<le> py \<and> py < dy + bitmap_height img
                       then Some (bitmap_pixel img (px - dx) (py - dy)) else None)
             (ctx_canvas ctx)\<rparr>"

text \<open>\<^verbatim>\<open>createCanvasFromBitmap\<close>, lines 16 to 30.\<close>

definition createCanvasFromBitmap :: "image_bitmap \<Rightarrow> offscreen_canvas" where
  "createCanvasFromBitmap imgBitmap =
     (let canvas = new_OffscreenCanvas (bitmap_width imgBitmap) (bitmap_height imgBitmap);
          ctx = getContext2d canvas;
          ctx = ctx\<lparr>fillStyle := white\<rparr>;
          ctx = fillRect ctx 0 0 (canvas_width (ctx_canvas ctx)) (canvas_height (ctx_canvas ctx));
          ctx = drawImage ctx imgBitmap 0 0
      in ctx_canvas ctx)"

text \<open>A bitmap is well formed when it holds one sample for each of its positions.\<close>

definition wf_bitmap :: "image_bitmap \<Rightarrow> bool" where
  "wf_bitmap img \<longleftrightarrow> length (bitmap_data img) = bitmap_width img * bitmap_height img"

subsection \<open>The conversion pipeline\<close>

text \<open>\<^verbatim>\<open>convertImageToPngBlob\<close>, lines 37 to 59.\<close>

definition convertImageToPngBlob :: "platform \<Rightarrow> string \<Rightarrow> blob task" where
  "convertImageToPngBlob p src =
     try_catch
       (await (call (Fetch src) (fetch p src)) (\<lambda>response.
          if \<not> ok response
          then ([], Inl (JsError (''Failed to fetch image: '' @ statusText response)))
          else
            await ([], body response) (\<lambda>originalBlob.
            await (call (CreateImageBitmap originalBlob) (createImageBitmap p originalBlob))
              (\<lambda>imageBitmap.
            let canvas = createCanvasFromBitmap imageBitmap
            in call (ConvertToBlob canvas ''image/png'') (convertToBlob p canvas ''image/png'')))))
       (\<lambda>error. call (ConsoleError ''Image conversion failed:'' error) (Inl error))"

text \<open>\<^verbatim>\<open>blobToDataURL\<close>, lines 67 to 75: one read, settled by the event that ends it.\<close>

definition blobToDataURL :: "platform \<Rightarrow> blob \<Rightarrow> string task" where
  "blobToDataURL p b =
     call (ReadAsDataURL b)
       (case readAsDataURL p b of
          Load result \<Rightarrow> Inr result
        | ReaderError err \<Rightarrow> Inl err
        | Abort \<Rightarrow> Inl (JsError ''Blob to Data URL conversion aborted.''))"

subsection \<open>The file name\<close>

definition digit_char :: "nat \<Rightarrow> char" where
  "digit_char d = ''0123456789'' ! d"

text \<open>The decimal numeral of a natural number, as \<^verbatim>\<open>String(n)\<close> writes it.\<close>

fun string_of_nat :: "nat \<Rightarrow> string" where
  "string_of_nat n =
     (if n < 10 then [digit_char n] else string_of_nat (n div 10) @ [digit_char (n mod 10)])"

declare string_of_nat.simps [simp del]

definition String_of_int :: "int \<Rightarrow> string" where
  "String_of_int i = (if i < 0 then CHR ''-'' # string_of_nat (nat (- i)) else string_of_nat (nat i))"

text \<open>\<^verbatim>\<open>s.padStart(n, pad)\<close>.\<close>

definition padStart :: "nat \<Rightarrow> string \<Rightarrow> string \<Rightarrow> string" where
  "padStart n pad s =
     (if n \<le> length s \<or> pad = [] then s
      else take (n - length s) (concat (replicate (n - length s) pad)) @ s)"

text \<open>
  Line 90 in the binary64 arithmetic the script runs on, for the value \<open>k / 2\<^sup>5\<^sup>3\<close> of
  \<^verbatim>\<open>Math.random()\<close>. A number is its numerator over \<open>2\<^sup>5\<^sup>3\<close>; \<open>round53\<close> rounds a
  numerator to 53 significant bits, to nearest and ties to even, as the product and the sum
  are rounded; \<open>excess_bits\<close> counts the bits that do not fit. \<^verbatim>\<open>Math.floor\<close> is the
  division by \<open>2\<^sup>5\<^sup>3\<close>.
\<close>

fun excess_bits :: "nat \<Rightarrow> nat" where
  "excess_bits n = (if n < 2 ^ 53 then 0 else Suc (excess_bits (n div 2)))"

declare excess_bits.simps [simp del]

definition round53 :: "nat \<Rightarrow> nat" where
  "round53 n =
     (let s = excess_bits n; q = n div 2 ^ s; rest = n mod 2 ^ s
      in if 2 * rest < 2 ^ s \<or> (2 * rest = 2 ^ s \<and> even q) then q * 2 ^ s else (q + 1) * 2 ^ s)"

definition randomNumber_binary64 :: "nat \<Rightarrow> nat" where
  "randomNumber_binary64 k = round53 (100000 * 2 ^ 53 + round53 (k * 900000)) div 2 ^ 53"

text \<open>
  \<^verbatim>\<open>generatePngFilename\<close>, lines 82 to 93, as a function of the two things it reads from
  the browser: the clock and \<^verbatim>\<open>Math.random()\<close>.
\<close>

definition generatePngFilename :: "date \<Rightarrow> 53 word \<Rightarrow> string" where
  "generatePngFilename now_date rnd =
     (let year = getFullYear now_date;
          month = padStart 2 ''0'' (String_of_int (int (getMonth now_date) + 1));
          day = padStart 2 ''0'' (String_of_int (int (getDate now_date)));
          todayDate = String_of_int year @ month @ day;
          randomNumber = randomNumber_binary64 (unat rnd)
      in ''image-'' @ todayDate @ ''-'' @ String_of_int (int randomNumber) @ ''.png'')"

subsection \<open>The click handler\<close>

text \<open>JavaScript truthiness of \<^verbatim>\<open>info.srcUrl\<close>: absent and the empty string are falsy.\<close>

fun truthy :: "string option \<Rightarrow> bool" where
  "truthy None = False"
| "truthy (Some s) = (s \<noteq> [])"

definition failure_message :: "js_error \<Rightarrow> string" where
  "failure_message error = ''Failed to convert and download image: '' @ message error"

text \<open>
  Reading \<^verbatim>\<open>tab.id\<close> (line 127): of \<^verbatim>\<open>undefined\<close> it throws a \<^verbatim>\<open>TypeError\<close>.
\<close>

definition read_tab_id :: "tab option \<Rightarrow> js_error + int" where
  "read_tab_id t =
     (case t of
        None \<Rightarrow> Inl (JsError ''Cannot read properties of undefined (reading 'id')'')
      | Some tb \<Rightarrow> Inr (tab_id tb))"

text \<open>
  \<^verbatim>\<open>handleContextMenuClick\<close>, lines 101 to 132. Nothing catches what the \<^verbatim>\<open>catch\<close> block
  itself throws: the handler's promise is then rejected.
\<close>

definition handleContextMenuClick :: "platform \<Rightarrow> on_click_data \<Rightarrow> tab option \<Rightarrow> unit task" where
  "handleContextMenuClick p info t =
     (if menuItemId info \<noteq> StringId CONTEXT_MENU_ID \<or> \<not> truthy (srcUrl info)
      then resolve ()
      else
        try_catch
          (await (convertImageToPngBlob p (case srcUrl info of Some u \<Rightarrow> u | None \<Rightarrow> []))
             (\<lambda>pngBlob.
           await (blobToDataURL p pngBlob) (\<lambda>dataUrl.
           let fname = generatePngFilename (now p) (random p)
           in call (Download \<lparr>url = dataUrl, filename = fname, saveAs = True\<rparr>) (Inr ()))))
          (\<lambda>error.
             await ([], read_tab_id t) (\<lambda>tabId.
             call (ExecuteScriptAlert tabId (failure_message error)) (Inr ()))))"

subsection \<open>Menu registration\<close>

record create_properties =
  cp_id :: string
  cp_title :: string
  cp_contexts :: "string list"

record menu_entry =
  entry_title :: string
  entry_contexts :: "string list"

text \<open>The browser's registry of this extension's context-menu entries, by identifier.\<close>

type_synonym menu_registry = "string \<rightharpoonup> menu_entry"

datatype menu_call = ContextMenusCreate create_properties | ContextMenusUpdate string string

text \<open>
  \<^verbatim>\<open>chrome.contextMenus.create\<close>: the new registry and \<^verbatim>\<open>chrome.runtime.lastError\<close> as the
  callback finds it. An identifier already in use is refused and the registry left as it was.
\<close>

definition contextMenus_create :: "create_properties \<Rightarrow> menu_registry \<Rightarrow> menu_registry \<times> js_error option" where
  "contextMenus_create props reg =
     (case reg (cp_id props) of
        Some e \<Rightarrow> (reg, Some (JsError (''Cannot create item with duplicate id '' @ cp_id props)))
      | None \<Rightarrow>
          (reg(cp_id props \<mapsto> \<lparr>entry_title = cp_title props, entry_contexts = cp_contexts props\<rparr>),
           None))"

text \<open>\<^verbatim>\<open>chrome.contextMenus.update(id, {title})\<close>: only the title of the entry changes.\<close>

definition contextMenus_update :: "string \<Rightarrow> string \<Rightarrow> menu_registry \<Rightarrow> menu_registry \<times> js_error option" where
  "contextMenus_update ident new_title reg =
     (case reg ident of
        None \<Rightarrow> (reg, Some (JsError (''Cannot find menu item with id '' @ ident)))
      | Some e \<Rightarrow> (reg(ident \<mapsto> e\<lparr>entry_title := new_title\<rparr>), None))"

text \<open>The listener of \<^verbatim>\<open>chrome.runtime.onInstalled\<close>, lines 137 to 149.\<close>

definition onInstalled :: "menu_registry \<Rightarrow> menu_call list \<times> menu_registry" where
  "onInstalled reg =
     (let props = \<lparr>cp_id = CONTEXT_MENU_ID, cp_title = CONTEXT_MENU_TITLE, cp_contexts = [''image'']\<rparr>
      in case contextMenus_create props reg of
           (reg1, None) \<Rightarrow> ([ContextMenusCreate props], reg1)
         | (reg1, Some lastError) \<Rightarrow>
             ([ContextMenusCreate props, ContextMenusUpdate CONTEXT_MENU_ID CONTEXT_MENU_TITLE],
              fst (contextMenus_update CONTEXT_MENU_ID CONTEXT_MENU_TITLE reg1)))"

subsection \<open>Vocabulary of the specification\<close>

text \<open>The download handoffs and the user notifications among the calls of a run.\<close>

fun download_calls :: "effect list \<Rightarrow> download_options list" where
  "download_calls [] = []"
| "download_calls (Download opts # tr) = opts # download_calls tr"
| "download_calls (_ # tr) = download_calls tr"

fun alert_calls :: "effect list \<Rightarrow> (int \<times> string) list" where
  "alert_calls [] = []"
| "alert_calls (ExecuteScriptAlert tid msg # tr) = (tid, msg) # alert_calls tr"
| "alert_calls (_ # tr) = alert_calls tr"

fun create_calls :: "menu_call list \<Rightarrow> create_properties list" where
  "create_calls [] = []"
| "create_calls (ContextMenusCreate props # cs) = props # create_calls cs"
| "create_calls (_ # cs) = create_calls cs"

text \<open>
  The stages of the pipeline that have a failure path in the script, and the first one to
  fail with its error, if any does. Compositing (lines 16 to 30) is not among them: it is
  straight-line drawing that is neither awaited nor throws.
\<close>

datatype stage = Fetching | Decoding | Encoding | Transporting

definition first_failure :: "platform \<Rightarrow> string \<Rightarrow> (stage \<times> js_error) option" where
  "first_failure p src =
     (case fetch p src of
        Inl e \<Rightarrow> Some (Fetching, e)
      | Inr resp \<Rightarrow>
          if \<not> ok resp then Some (Fetching, JsError (''Failed to fetch image: '' @ statusText resp))
          else
            (case body resp of
               Inl e \<Rightarrow> Some (Fetching, e)
             | Inr raw \<Rightarrow>
                 (case createImageBitmap p raw of
                    Inl e \<Rightarrow> Some (Decoding, e)
                  | Inr bmp \<Rightarrow>
                      (case convertToBlob p (createCanvasFromBitmap bmp) ''image/png'' of
                         Inl e \<Rightarrow> Some (Encoding, e)
                       | Inr png \<Rightarrow>
                           (case readAsDataURL p png of
                              Load _ \<Rightarrow> None
                            | ReaderError e \<Rightarrow> Some (Transporting, e)
                            | Abort \<Rightarrow>
                                Some (Transporting,
                                      JsError ''Blob to Data URL conversion aborted.''))))))"

text \<open>The pattern \<^verbatim>\<open>image-\d{8}-\d{6}\.png\<close>, on the whole name.\<close>

definition is_digit :: "char \<Rightarrow> bool" where
  "is_digit c \<longleftrightarrow> c \<in> set ''0123456789''"

definition filename_shape :: "string \<Rightarrow> bool" where
  "filename_shape s \<longleftrightarrow>
     length s = 25 \<and> take 6 s = ''image-'' \<and> list_all is_digit (take 8 (drop 6 s)) \<and>
     take 1 (drop 14 s) = ''-'' \<and> list_all is_digit (take 6 (drop 15 s)) \<and> drop 21 s = ''.png''"

text \<open>Reading a decimal numeral back.\<close>

definition digit_value :: "char \<Rightarrow> nat" where
  "digit_value c = of_char c - 48"

definition nat_of_string :: "string \<Rightarrow> nat" where
  "nat_of_string s = foldl (\<lambda>n c. 10 * n + digit_value c) 0 s"

definition year_digits :: "string \<Rightarrow> string" where
  "year_digits s = take 4 (drop 6 s)"

definition month_digits :: "string \<Rightarrow> string" where
  "month_digits s = take 2 (drop 10 s)"

definition day_digits :: "string \<Rightarrow> string" where
  "day_digits s = take 2 (drop 12 s)"

definition random_digits :: "string \<Rightarrow> string" where
  "random_digits s = take 6 (drop 15 s)"

subsection \<open>Sample inputs\<close>

definition sample_jpeg :: blob where
  "sample_jpeg = \<lparr>blob_type = ''image/jpeg'', blob_bytes = [0xFF, 0xD8, 0xFF, 0xE0]\<rparr>"

definition sample_png :: blob where
  "sample_png = \<lparr>blob_type = ''image/png'',
                  blob_bytes = [0x89, 0x50, 0x4E, 0x47, 0x0D, 0x0A, 0x1A, 0x0A]\<rparr>"

text \<open>Two by two: a transparent red, an opaque blue, a half-covered green, an opaque black.\<close>

definition sample_bitmap :: image_bitmap where
  "sample_bitmap =
     \<lparr>bitmap_width = 2, bitmap_height = 2,
      bitmap_data =
        [\<lparr>red = 255, green = 0, blue = 0, alpha = 0\<rparr>,
         \<lparr>red = 0, green = 0, blue = 255, alpha = 255\<rparr>,
         \<lparr>red = 0, green = 255, blue = 0, alpha = 128\<rparr>,
         \<lparr>red = 0, green = 0, blue = 0, alpha = 255\<rparr>]\<rparr>"

definition opaque_bitmap :: image_bitmap where
  "opaque_bitmap =
     \<lparr>bitmap_width = 2, bitmap_height = 1,
      bitmap_data =
        [\<lparr>red = 10, green = 20, blue = 30, alpha = 255\<rparr>,
         \<lparr>red = 0, green = 0, blue = 255, alpha = 255\<rparr>]\<rparr>"

definition sample_date :: date where
  "sample_date = \<lparr>getFullYear = 2024, getMonth = 2, getDate = 5\<rparr>"

text \<open>
  A browser for which every stage succeeds; its \<^verbatim>\<open>Math.random()\<close> is
  \<open>4573968371548160 / 2\<^sup>5\<^sup>3 = 0.5078125\<close>.
\<close>

definition sample_platform :: platform where
  "sample_platform =
     \<lparr>fetch = (\<lambda>u. Inr \<lparr>ok = True, statusText = ''OK'', body = Inr sample_jpeg\<rparr>),
      createImageBitmap = (\<lambda>b. Inr opaque_bitmap),
      convertToBlob = (\<lambda>c ty. Inr sample_png),
      readAsDataURL = (\<lambda>b. Load ''data:image/png;base64,iVBORw0KGgo=''),
      now = sample_date,
      random = 4573968371548160,
      download_outcome = (\<lambda>opts. Inr 1)\<rparr>"


definition sample_click :: on_click_data where
  "sample_click =
     \<lparr>menuItemId = StringId ''download-image-as-png'',
      srcUrl = Some ''https://example.org/a.jpg''\<rparr>"

definition sample_tab :: tab where
  "sample_tab = \<lparr>tab_id = 7\<rparr>"


text \<open>Browsers whose file reader ends with an error, and with an abort.\<close>

definition reader_error_platform :: platform where
  "reader_error_platform =
     sample_platform\<lparr>readAsDataURL := (\<lambda>b. ReaderError (JsError ''The blob could not be read.''))\<rparr>"

definition reader_abort_platform :: platform where
  "reader_abort_platform = sample_platform\<lparr>readAsDataURL := (\<lambda>b. Abort)\<rparr>"

text \<open>A registry that already holds the entry, under another title and in another context.\<close>

definition stale_entry :: menu_entry where
  "stale_entry = \<lparr>entry_title = ''Save as PNG'', entry_contexts = [''all'']\<rparr>"

definition stale_registry :: menu_registry where
  "stale_registry = [CONTEXT_MENU_ID \<mapsto> stale_entry]"

section \<open>The click handler and its pipeline\<close>

lemma convertImageToPngBlob_decoded:
  assumes "fetch p u = Inr resp" "ok resp" "body resp = Inr raw"
    "createImageBitmap p raw = Inr bmp"
  shows "convertImageToPngBlob p u =
    (case convertToBlob p (createCanvasFromBitmap bmp) ''image/png'' of
       Inr png \<Rightarrow>
         ([Fetch u, CreateImageBitmap raw,
           ConvertToBlob (createCanvasFromBitmap bmp) ''image/png''], Inr png)
     | Inl e \<Rightarrow>
         ([Fetch u, CreateImageBitmap raw,
           ConvertToBlob (createCanvasFromBitmap bmp) ''image/png'',
           ConsoleError ''Image conversion failed:'' e], Inl e))"
  using assms
  by (simp add: convertImageToPngBlob_def await_def try_catch_def call_def Let_def
      split: sum.splits)

lemma handler_ignores_download_outcome:
  "handleContextMenuClick (p\<lparr>download_outcome := d\<rparr>) info t = handleContextMenuClick p info t"
  by (simp add: handleContextMenuClick_def convertImageToPngBlob_def blobToDataURL_def Let_def
      cong del: if_weak_cong)

lemma sample_click_qualifies:
  "menuItemId sample_click = StringId CONTEXT_MENU_ID"
  "srcUrl sample_click = Some ''https://example.org/a.jpg''"
  by (simp_all add: sample_click_def CONTEXT_MENU_ID_def)

text \<open>
  Claim C1. A click on the registered entry that carries a non-empty \<^verbatim>\<open>srcUrl\<close>, all of
  whose stages succeed, makes the calls fetch, decode, encode, read, and then exactly one
  download handoff: the data URL the reader produced, the generated file name, and
  \<^verbatim>\<open>saveAs: true\<close>. No alert is injected, the handler resolves right after the handoff, and
  what the download subsystem later answers changes nothing of the run.
\<close>

theorem download_handoff_on_success:
  assumes "menuItemId info = StringId CONTEXT_MENU_ID" "srcUrl info = Some u" "u \<noteq> []"
    "fetch p u = Inr resp" "ok resp" "body resp = Inr raw"
    "createImageBitmap p raw = Inr bmp"
    "convertToBlob p (createCanvasFromBitmap bmp) ''image/png'' = Inr png"
    "readAsDataURL p png = Load dataUrl"
  shows "handleContextMenuClick p info t =
     ([Fetch u, CreateImageBitmap raw, ConvertToBlob (createCanvasFromBitmap bmp) ''image/png'',
       ReadAsDataURL png,
       Download \<lparr>url = dataUrl, filename = generatePngFilename (now p) (random p), saveAs = True\<rparr>],
      Inr ()) \<and>
     download_calls (fst (handleContextMenuClick p info t)) =
       [\<lparr>url = dataUrl, filename = generatePngFilename (now p) (random p), saveAs = True\<rparr>] \<and>
     alert_calls (fst (handleContextMenuClick p info t)) = [] \<and>
     handleContextMenuClick (p\<lparr>download_outcome := d\<rparr>) info t = handleContextMenuClick p info t"
proof -
  have run: "handleContextMenuClick p info t =
     ([Fetch u, CreateImageBitmap raw, ConvertToBlob (createCanvasFromBitmap bmp) ''image/png'',
       ReadAsDataURL png,
       Download \<lparr>url = dataUrl, filename = generatePngFilename (now p) (random p), saveAs = True\<rparr>],
      Inr ())"
    using assms
    by (simp add: handleContextMenuClick_def convertImageToPngBlob_decoded blobToDataURL_def
        await_def try_catch_def call_def Let_def)
  show ?thesis
    by (simp add: run handler_ignores_download_outcome)
qed

theorem download_handoff_on_success_witness:
  "menuItemId sample_click = StringId CONTEXT_MENU_ID \<and>
   srcUrl sample_click = Some ''https://example.org/a.jpg'' \<and>
   readAsDataURL sample_platform sample_png = Load ''data:image/png;base64,iVBORw0KGgo='' \<and>
   handleContextMenuClick sample_platform sample_click (Some sample_tab) =
     ([Fetch ''https://example.org/a.jpg'', CreateImageBitmap sample_jpeg,
       ConvertToBlob (createCanvasFromBitmap opaque_bitmap) ''image/png'',
       ReadAsDataURL sample_png,
       Download \<lparr>url = ''data:image/png;base64,iVBORw0KGgo='',
                 filename = generatePngFilename sample_date 4573968371548160,
                 saveAs = True\<rparr>],
      Inr ())"
proof -
  let ?resp = "\<lparr>ok = True, statusText = ''OK'', body = Inr sample_jpeg\<rparr>"
  have "''https://example.org/a.jpg'' \<noteq> []" by simp
  moreover have "fetch sample_platform ''https://example.org/a.jpg'' = Inr ?resp"
    by (simp add: sample_platform_def)
  moreover have "ok ?resp" and "body ?resp = Inr sample_jpeg"
    by simp_all
  moreover have "createImageBitmap sample_platform sample_jpeg = Inr opaque_bitmap"
    by (simp add: sample_platform_def)
  moreover have "convertToBlob sample_platform (createCanvasFromBitmap opaque_bitmap) ''image/png''
      = Inr sample_png"
    by (simp add: sample_platform_def)
  moreover have "readAsDataURL sample_platform sample_png = Load ''data:image/png;base64,iVBORw0KGgo=''"
    by (simp add: sample_platform_def)
  ultimately show ?thesis
    using sample_click_qualifies
      download_handoff_on_success [of sample_click "''https://example.org/a.jpg''" sample_platform
        ?resp sample_jpeg opaque_bitmap sample_png "''data:image/png;base64,iVBORw0KGgo=''"
        "Some sample_tab"]
    by (simp add: sample_platform_def)
qed

text \<open>
  Claim C4. A click whose \<^verbatim>\<open>menuItemId\<close> is not the registered identifier, or that has no
  \<^verbatim>\<open>srcUrl\<close>, makes no call at all (no fetch, no decoding, no encoding, no read, no console
  output, no download, no alert) and the handler returns at once.
\<close>

theorem nonmatching_click_ignored:
  assumes "menuItemId info \<noteq> StringId CONTEXT_MENU_ID \<or> srcUrl info = None"
  shows "handleContextMenuClick p info t = ([], Inr ())"
  using assms by (auto simp: handleContextMenuClick_def resolve_def)

theorem nonmatching_click_ignored_witness:
  "menuItemId (sample_click\<lparr>menuItemId := StringId ''open-in-new-tab''\<rparr>)
     \<noteq> StringId CONTEXT_MENU_ID \<and>
   handleContextMenuClick sample_platform
     (sample_click\<lparr>menuItemId := StringId ''open-in-new-tab''\<rparr>) (Some sample_tab)
     = ([], Inr ()) \<and>
   srcUrl (sample_click\<lparr>srcUrl := None\<rparr>) = None \<and>
   handleContextMenuClick sample_platform (sample_click\<lparr>srcUrl := None\<rparr>) (Some sample_tab)
     = ([], Inr ())"
  using
    nonmatching_click_ignored [of "sample_click\<lparr>menuItemId := StringId ''open-in-new-tab''\<rparr>"
      sample_platform "Some sample_tab"]
    nonmatching_click_ignored [of "sample_click\<lparr>srcUrl := None\<rparr>" sample_platform
      "Some sample_tab"]
  by (simp add: sample_click_def CONTEXT_MENU_ID_def)

text \<open>
  Claim C10. A click whose \<^verbatim>\<open>srcUrl\<close> is present but is the empty string is rejected by the
  guard just as a click without \<^verbatim>\<open>srcUrl\<close> is: no call is made and the handler returns.
\<close>

theorem empty_srcUrl_ignored:
  "handleContextMenuClick p (info\<lparr>srcUrl := Some []\<rparr>) t = ([], Inr ()) \<and>
   handleContextMenuClick p (info\<lparr>srcUrl := Some []\<rparr>) t =
     handleContextMenuClick p (info\<lparr>srcUrl := None\<rparr>) t"
  by (simp add: handleContextMenuClick_def resolve_def)

theorem empty_srcUrl_ignored_witness:
  "menuItemId (sample_click\<lparr>srcUrl := Some []\<rparr>) = StringId CONTEXT_MENU_ID \<and>
   handleContextMenuClick sample_platform (sample_click\<lparr>srcUrl := Some []\<rparr>)
     (Some sample_tab) = ([], Inr ())"
  using empty_srcUrl_ignored [of sample_platform sample_click "Some sample_tab"]
  by (simp add: sample_click_def CONTEXT_MENU_ID_def)

text \<open>
  A failure status (\<^verbatim>\<open>response.ok\<close> false, as for a 404) makes the conversion reject,
  after the fetch alone, with an error whose message is \<^verbatim>\<open>Failed to fetch image: \<close>
  followed by the status text.
\<close>

lemma convertImageToPngBlob_status_failure:
  assumes "fetch p u = Inr resp" "\<not> ok resp"
  shows "convertImageToPngBlob p u =
       ([Fetch u,
         ConsoleError ''Image conversion failed:''
           (JsError (''Failed to fetch image: '' @ statusText resp))],
        Inl (JsError (''Failed to fetch image: '' @ statusText resp)))"
  using assms by (simp add: convertImageToPngBlob_def await_def try_catch_def call_def)

text \<open>
  For a click in a tab, the handler then injects exactly one alert into that tab and hands
  nothing to the download subsystem.
\<close>

lemma fetch_status_failure_in_tab:
  assumes "menuItemId info = StringId CONTEXT_MENU_ID" "srcUrl info = Some u" "u \<noteq> []"
    "fetch p u = Inr resp" "\<not> ok resp"
  shows "handleContextMenuClick p info (Some tb) =
       ([Fetch u,
         ConsoleError ''Image conversion failed:''
           (JsError (''Failed to fetch image: '' @ statusText resp)),
         ExecuteScriptAlert (tab_id tb)
           (''Failed to convert and download image: Failed to fetch image: '' @ statusText resp)],
        Inr ())"
  using assms
  by (simp add: handleContextMenuClick_def convertImageToPngBlob_status_failure await_def
      try_catch_def call_def failure_message_def read_tab_id_def)



text \<open>
  Whichever stage is the first to fail (the fetch, its status or its body, the decoding, the
  encoding, the read of the blob), for a click in a tab the handler catches the error,
  injects exactly one alert into that tab, whose text is
  \<^verbatim>\<open>Failed to convert and download image: \<close> followed by the message of that error, makes
  no download handoff, and resolves.
\<close>

lemma stage_failure_in_tab:
  assumes "menuItemId info = StringId CONTEXT_MENU_ID" "srcUrl info = Some u" "u \<noteq> []"
    "first_failure p u = Some (st, e)"
  shows "alert_calls (fst (handleContextMenuClick p info (Some tb))) =
       [(tab_id tb, ''Failed to convert and download image: '' @ message e)] \<and>
     download_calls (fst (handleContextMenuClick p info (Some tb))) = [] \<and>
     snd (handleContextMenuClick p info (Some tb)) = Inr ()"
  using assms
  by (auto simp add: handleContextMenuClick_def first_failure_def convertImageToPngBlob_def
      blobToDataURL_def await_def try_catch_def call_def Let_def failure_message_def
      read_tab_id_def
      split: sum.splits reader_event.splits if_splits)



text \<open>
  Claim C7. \<^verbatim>\<open>blobToDataURL\<close> starts one read of the blob and no other. It resolves with
  the reader's result when the read loads, rejects with the reader's error when the read
  errors, and rejects with \<^verbatim>\<open>Blob to Data URL conversion aborted.\<close> when the read is aborted;
  so it fails exactly when the read errors or is aborted.
\<close>

theorem blobToDataURL_settles:
  "fst (blobToDataURL p b) = [ReadAsDataURL b] \<and>
   (readAsDataURL p b = Load result \<longrightarrow> snd (blobToDataURL p b) = Inr result) \<and>
   (readAsDataURL p b = ReaderError err \<longrightarrow> snd (blobToDataURL p b) = Inl err) \<and>
   (readAsDataURL p b = Abort \<longrightarrow>
      snd (blobToDataURL p b) = Inl (JsError ''Blob to Data URL conversion aborted.'')) \<and>
   (isl (snd (blobToDataURL p b)) \<longleftrightarrow>
      readAsDataURL p b = Abort \<or> (\<exists>e. readAsDataURL p b = ReaderError e))"
  by (auto simp: blobToDataURL_def call_def split: reader_event.splits)

theorem blobToDataURL_settles_witness:
  "readAsDataURL sample_platform sample_png = Load ''data:image/png;base64,iVBORw0KGgo='' \<and>
   blobToDataURL sample_platform sample_png =
     ([ReadAsDataURL sample_png], Inr ''data:image/png;base64,iVBORw0KGgo='') \<and>
   readAsDataURL reader_error_platform sample_png =
     ReaderError (JsError ''The blob could not be read.'') \<and>
   blobToDataURL reader_error_platform sample_png =
     ([ReadAsDataURL sample_png], Inl (JsError ''The blob could not be read.'')) \<and>
   readAsDataURL reader_abort_platform sample_png = Abort \<and>
   blobToDataURL reader_abort_platform sample_png =
     ([ReadAsDataURL sample_png], Inl (JsError ''Blob to Data URL conversion aborted.''))"
proof -
  have "readAsDataURL sample_platform sample_png = Load ''data:image/png;base64,iVBORw0KGgo=''"
    by (simp add: sample_platform_def)
  moreover have "readAsDataURL reader_error_platform sample_png =
      ReaderError (JsError ''The blob could not be read.'')"
    by (simp add: reader_error_platform_def)
  moreover have "readAsDataURL reader_abort_platform sample_png = Abort"
    by (simp add: reader_abort_platform_def)
  ultimately show ?thesis
    using
      blobToDataURL_settles [of sample_platform sample_png "''data:image/png;base64,iVBORw0KGgo=''"]
      blobToDataURL_settles [of reader_error_platform sample_png _
        "JsError ''The blob could not be read.''"]
      blobToDataURL_settles [of reader_abort_platform sample_png]
    by (simp add: prod_eq_iff)
qed

section \<open>Menu registration\<close>

text \<open>
  Claim C8. On every \<^verbatim>\<open>onInstalled\<close> event the listener tries to create exactly one entry,
  with the fixed identifier, the fixed title and the context \<^verbatim>\<open>image\<close>. Where no entry has
  that identifier, the entry is registered. Where one has, the creation is refused and the
  listener updates the title of that entry in place, keeping its other properties. No other
  entry changes, and running the listener again changes nothing more.
\<close>

theorem onInstalled_upsert:
  "create_calls (fst (onInstalled reg)) =
     [\<lparr>cp_id = CONTEXT_MENU_ID, cp_title = CONTEXT_MENU_TITLE, cp_contexts = [''image'']\<rparr>] \<and>
   (reg CONTEXT_MENU_ID = None \<longrightarrow>
      onInstalled reg =
        ([ContextMenusCreate
            \<lparr>cp_id = CONTEXT_MENU_ID, cp_title = CONTEXT_MENU_TITLE, cp_contexts = [''image'']\<rparr>],
         reg(CONTEXT_MENU_ID \<mapsto>
            \<lparr>entry_title = CONTEXT_MENU_TITLE, entry_contexts = [''image'']\<rparr>))) \<and>
   (reg CONTEXT_MENU_ID = Some e \<longrightarrow>
      onInstalled reg =
        ([ContextMenusCreate
            \<lparr>cp_id = CONTEXT_MENU_ID, cp_title = CONTEXT_MENU_TITLE, cp_contexts = [''image'']\<rparr>,
          ContextMenusUpdate CONTEXT_MENU_ID CONTEXT_MENU_TITLE],
         reg(CONTEXT_MENU_ID \<mapsto> e\<lparr>entry_title := CONTEXT_MENU_TITLE\<rparr>))) \<and>
   (k \<noteq> CONTEXT_MENU_ID \<longrightarrow> snd (onInstalled reg) k = reg k) \<and>
   snd (onInstalled (snd (onInstalled reg))) = snd (onInstalled reg)"
  by (auto simp: onInstalled_def contextMenus_create_def contextMenus_update_def Let_def
      split: option.splits)

theorem onInstalled_upsert_witness:
  "Map.empty CONTEXT_MENU_ID = None \<and>
   snd (onInstalled Map.empty) CONTEXT_MENU_ID =
     Some \<lparr>entry_title = ''Download image as PNG'', entry_contexts = [''image'']\<rparr> \<and>
   stale_registry CONTEXT_MENU_ID = Some stale_entry \<and>
   snd (onInstalled stale_registry) CONTEXT_MENU_ID =
     Some \<lparr>entry_title = ''Download image as PNG'', entry_contexts = [''all'']\<rparr> \<and>
   ''open-in-new-tab'' \<noteq> CONTEXT_MENU_ID \<and>
   snd (onInstalled stale_registry) ''open-in-new-tab'' = None"
  using onInstalled_upsert [of Map.empty _ "''open-in-new-tab''"]
    onInstalled_upsert [of stale_registry stale_entry "''open-in-new-tab''"]
  by (simp add: stale_registry_def stale_entry_def CONTEXT_MENU_ID_def CONTEXT_MENU_TITLE_def)

section \<open>The compositor\<close>

lemma over_alpha_opaque_source [simp]: "over_alpha 255 da = 255"
  by (simp add: over_alpha_def over_weight_def)

lemma over_channel_opaque_source [simp]: "over_channel sc 255 dc da = sc"
  by (simp add: over_channel_def over_weight_def)

lemma over_alpha_clear_source [simp]: "over_alpha 0 da = da"
  by (simp add: over_alpha_def over_weight_def)

lemma over_channel_clear_source [simp]: "over_channel sc 0 dc 255 = dc"
  by (simp add: over_channel_def over_weight_def)

lemma source_over_opaque: "alpha s = 255 \<Longrightarrow> source_over s d = s"
  by (simp add: source_over_def)

lemma source_over_clear_on_white: "alpha s = 0 \<Longrightarrow> source_over s white = white"
  by (simp add: source_over_def white_def)

text \<open>Positions and indices of a grid of \<open>w\<close> columns and \<open>h\<close> rows.\<close>

lemma cell_in_grid:
  assumes "i < w * h"
  shows "i mod w < w" and "i div w < (h::nat)"
proof -
  from assms have "0 < w" by (cases w) simp_all
  then show "i mod w < w" by simp
  from assms show "i div w < h"
    by (simp add: less_mult_imp_div_less mult.commute)
qed

lemma cell_index:
  assumes "x < w" "y < (h::nat)"
  shows "y * w + x < w * h" and "(y * w + x) mod w = x" and "(y * w + x) div w = y"
proof -
  have "y * w + x < y * w + w" using assms by simp
  also have "\<dots> = w * Suc y" by simp
  also have "\<dots> \<le> w * h" using assms by (intro mult_le_mono2) simp
  finally show "y * w + x < w * h" .
  show "(y * w + x) mod w = x" using assms by simp
  show "(y * w + x) div w = y" using assms by simp
qed

lemma paint_frame [simp]:
  "canvas_width (paint src c) = canvas_width c"
  "canvas_height (paint src c) = canvas_height c"
  "length (canvas_data (paint src c)) = length (canvas_data c)"
  by (simp_all add: paint_def)

lemma paint_nth:
  assumes "i < length (canvas_data c)"
  shows "canvas_data (paint src c) ! i =
     (case src (i mod canvas_width c) (i div canvas_width c) of
        None \<Rightarrow> canvas_data c ! i
      | Some s \<Rightarrow> source_over s (canvas_data c ! i))"
  using assms by (simp add: paint_def split: option.split)

text \<open>After the fill, every sample of the fresh canvas is opaque white.\<close>

lemma filled_white:
  "ctx_canvas (fillRect (getContext2d (new_OffscreenCanvas w h)\<lparr>fillStyle := white\<rparr>) 0 0 w h)
     = \<lparr>canvas_width = w, canvas_height = h, canvas_data = replicate (w * h) white\<rparr>"
proof -
  let ?blank = "new_OffscreenCanvas w h"
  let ?src = "\<lambda>px py. if 0 \<le> px \<and> px < 0 + w \<and> 0 \<le> py \<and> py < 0 + h then Some white else None"
  have blank: "canvas_width ?blank = w" "canvas_height ?blank = h"
    "canvas_data ?blank = replicate (w * h) transparent_black"
    by (simp_all add: new_OffscreenCanvas_def)
  have "canvas_data (paint ?src ?blank) = replicate (w * h) white"
  proof (rule nth_equalityI)
    show "length (canvas_data (paint ?src ?blank)) = length (replicate (w * h) white)"
      by (simp add: blank)
  next
    fix i assume "i < length (canvas_data (paint ?src ?blank))"
    then have i: "i < w * h" by (simp add: blank)
    then have "?src (i mod w) (i div w) = Some white"
      by (simp add: cell_in_grid)
    with i show "canvas_data (paint ?src ?blank) ! i = replicate (w * h) white ! i"
      by (simp add: paint_nth blank source_over_opaque white_def)
  qed
  then have "paint ?src ?blank =
      \<lparr>canvas_width = w, canvas_height = h, canvas_data = replicate (w * h) white\<rparr>"
    by (simp add: blank)
  then show ?thesis
    by (simp add: fillRect_def getContext2d_def cong: if_cong)
qed

lemma composite_data:
  "canvas_data (createCanvasFromBitmap img) =
     map (\<lambda>i. source_over (bitmap_pixel img (i mod bitmap_width img) (i div bitmap_width img)) white)
       [0..<bitmap_width img * bitmap_height img]"
proof -
  let ?w = "bitmap_width img" and ?h = "bitmap_height img"
  let ?filled = "\<lparr>canvas_width = ?w, canvas_height = ?h, canvas_data = replicate (?w * ?h) white\<rparr>"
  let ?src = "\<lambda>px py. if 0 \<le> px \<and> px < 0 + ?w \<and> 0 \<le> py \<and> py < 0 + ?h
                      then Some (bitmap_pixel img (px - 0) (py - 0)) else None"
  have "canvas_data (paint ?src ?filled) =
     map (\<lambda>i. source_over (bitmap_pixel img (i mod ?w) (i div ?w)) white) [0..<?w * ?h]"
  proof (rule nth_equalityI)
    show "length (canvas_data (paint ?src ?filled)) =
        length (map (\<lambda>i. source_over (bitmap_pixel img (i mod ?w) (i div ?w)) white) [0..<?w * ?h])"
      by simp
  next
    fix i assume "i < length (canvas_data (paint ?src ?filled))"
    then have i: "i < ?w * ?h" by simp
    then show "canvas_data (paint ?src ?filled) ! i =
        map (\<lambda>i. source_over (bitmap_pixel img (i mod ?w) (i div ?w)) white) [0..<?w * ?h] ! i"
      by (simp add: paint_nth cell_in_grid)
  qed
  moreover have "createCanvasFromBitmap img = paint ?src ?filled"
    using filled_white [of ?w ?h]
    by (simp add: createCanvasFromBitmap_def Let_def drawImage_def getContext2d_def
        new_OffscreenCanvas_def fillRect_def cong: if_cong)
  ultimately show ?thesis by simp
qed

lemma composite_size:
  "canvas_width (createCanvasFromBitmap img) = bitmap_width img \<and>
   canvas_height (createCanvasFromBitmap img) = bitmap_height img"
  by (simp add: createCanvasFromBitmap_def Let_def drawImage_def fillRect_def paint_def
      getContext2d_def new_OffscreenCanvas_def)

lemma composite_pixel:
  assumes "x < bitmap_width img" "y < bitmap_height img"
  shows "canvas_pixel (createCanvasFromBitmap img) x y = source_over (bitmap_pixel img x y) white"
  using assms
  by (simp add: canvas_pixel_def composite_size composite_data cell_index)

text \<open>
  Claim C2. The canvas built for a bitmap has the bitmap's width and height and one sample
  for each position. The sample at column \<open>x\<close> of row \<open>y\<close> is the bitmap's sample at the same
  position composited over opaque white: the whole surface was filled white and the bitmap
  drawn at the origin, neither scaled nor cropped. So where the bitmap's sample is fully
  transparent, the canvas holds opaque white (255, 255, 255, 255).
\<close>

theorem composite_over_white:
  "canvas_width (createCanvasFromBitmap img) = bitmap_width img \<and>
   canvas_height (createCanvasFromBitmap img) = bitmap_height img \<and>
   length (canvas_data (createCanvasFromBitmap img)) = bitmap_width img * bitmap_height img \<and>
   (x < bitmap_width img \<and> y < bitmap_height img \<longrightarrow>
      canvas_pixel (createCanvasFromBitmap img) x y = source_over (bitmap_pixel img x y) white \<and>
      (alpha (bitmap_pixel img x y) = 0 \<longrightarrow>
         canvas_pixel (createCanvasFromBitmap img) x y =
           \<lparr>red = 255, green = 255, blue = 255, alpha = 255\<rparr>))"
  by (simp add: composite_size composite_pixel source_over_clear_on_white composite_data
      white_def [symmetric])

theorem composite_over_white_witness:
  "(0::nat) < bitmap_width sample_bitmap \<and> (0::nat) < bitmap_height sample_bitmap \<and>
   bitmap_pixel sample_bitmap 0 0 = \<lparr>red = 255, green = 0, blue = 0, alpha = 0\<rparr> \<and>
   canvas_width (createCanvasFromBitmap sample_bitmap) = 2 \<and>
   canvas_height (createCanvasFromBitmap sample_bitmap) = 2 \<and>
   canvas_pixel (createCanvasFromBitmap sample_bitmap) 0 0 =
     \<lparr>red = 255, green = 255, blue = 255, alpha = 255\<rparr>"
proof -
  have x: "(0::nat) < bitmap_width sample_bitmap" and y: "(0::nat) < bitmap_height sample_bitmap"
    by (simp_all add: sample_bitmap_def)
  have px: "bitmap_pixel sample_bitmap 0 0 = \<lparr>red = 255, green = 0, blue = 0, alpha = 0\<rparr>"
    by (simp add: sample_bitmap_def bitmap_pixel_def)
  then have clear: "alpha (bitmap_pixel sample_bitmap 0 0) = 0" by simp
  from composite_over_white [of sample_bitmap 0 0] x y clear
  have "canvas_pixel (createCanvasFromBitmap sample_bitmap) 0 0 =
        \<lparr>red = 255, green = 255, blue = 255, alpha = 255\<rparr>"
    by blast
  moreover from composite_over_white [of sample_bitmap 0 0]
  have "canvas_width (createCanvasFromBitmap sample_bitmap) = 2"
    and "canvas_height (createCanvasFromBitmap sample_bitmap) = 2"
    by (simp_all add: sample_bitmap_def)
  ultimately show ?thesis using x y px by simp
qed

text \<open>
  Claim C9. For a well-formed bitmap all of whose samples are fully opaque, the canvas holds
  the bitmap's samples unchanged, at the bitmap's size: drawing the bitmap overwrites the
  white fill everywhere.
\<close>

theorem composite_opaque_identity:
  assumes "wf_bitmap img" "\<forall>px \<in> set (bitmap_data img). alpha px = 255"
  shows "canvas_data (createCanvasFromBitmap img) = bitmap_data img \<and>
     canvas_width (createCanvasFromBitmap img) = bitmap_width img \<and>
     canvas_height (createCanvasFromBitmap img) = bitmap_height img"
proof -
  let ?w = "bitmap_width img" and ?h = "bitmap_height img"
  have len: "length (bitmap_data img) = ?w * ?h"
    using assms(1) by (simp add: wf_bitmap_def)
  have cell: "source_over (bitmap_pixel img (i mod ?w) (i div ?w)) white = bitmap_data img ! i"
    if "i < ?w * ?h" for i
  proof -
    have "bitmap_pixel img (i mod ?w) (i div ?w) = bitmap_data img ! i"
      by (simp add: bitmap_pixel_def)
    moreover have "alpha (bitmap_data img ! i) = 255"
      using assms(2) that len by simp
    ultimately show ?thesis by (simp add: source_over_opaque)
  qed
  have "canvas_data (createCanvasFromBitmap img) = map (\<lambda>i. bitmap_data img ! i) [0..<?w * ?h]"
    unfolding composite_data by (rule map_cong) (simp_all add: cell)
  also have "\<dots> = bitmap_data img"
    using len map_nth [of "bitmap_data img"] by simp
  finally show ?thesis by (simp add: composite_size)
qed

theorem composite_opaque_identity_witness:
  "wf_bitmap opaque_bitmap \<and>
   list_all (\<lambda>px. alpha px = 255) (bitmap_data opaque_bitmap) \<and>
   canvas_data (createCanvasFromBitmap opaque_bitmap) =
     [\<lparr>red = 10, green = 20, blue = 30, alpha = 255\<rparr>,
      \<lparr>red = 0, green = 0, blue = 255, alpha = 255\<rparr>]"
proof -
  have wf: "wf_bitmap opaque_bitmap"
    by (simp add: wf_bitmap_def opaque_bitmap_def)
  have opaque: "\<forall>px \<in> set (bitmap_data opaque_bitmap). alpha px = 255"
    by (simp add: opaque_bitmap_def)
  show ?thesis
    using wf opaque composite_opaque_identity [OF wf opaque]
    by (simp add: opaque_bitmap_def)
qed

section \<open>The file name\<close>

lemma digit_cases:
  assumes "d < (10::nat)"
  obtains "d = 0" | "d = 1" | "d = 2" | "d = 3" | "d = 4" | "d = 5" | "d = 6" | "d = 7" | "d = 8" | "d = 9"
proof -
  from assms have "d = 0 \<or> d = 1 \<or> d = 2 \<or> d = 3 \<or> d = 4 \<or> d = 5 \<or> d = 6 \<or> d = 7 \<or> d = 8 \<or> d = 9"
    by arith
  then show thesis using that by blast
qed

lemma is_digit_digit_char: "d < 10 \<Longrightarrow> is_digit (digit_char d)"
  by (erule digit_cases) (simp_all add: is_digit_def digit_char_def)

lemma digit_value_digit_char: "d < 10 \<Longrightarrow> digit_value (digit_char d) = d"
  by (erule digit_cases) (simp_all add: digit_value_def digit_char_def)

lemma string_of_nat_digits: "list_all is_digit (string_of_nat n)"
proof (induction n rule: string_of_nat.induct)
  case (1 n)
  show ?case
  proof (cases "n < 10")
    case True
    then show ?thesis
      by (simp add: string_of_nat.simps [of n] is_digit_digit_char)
  next
    case False
    with 1 show ?thesis
      by (simp add: string_of_nat.simps [of n] is_digit_digit_char)
  qed
qed

lemma nat_of_string_snoc: "nat_of_string (s @ [c]) = 10 * nat_of_string s + digit_value c"
  by (simp add: nat_of_string_def)

lemma nat_of_string_leading_zero: "nat_of_string (CHR ''0'' # s) = nat_of_string s"
  by (simp add: nat_of_string_def digit_value_def)

lemma nat_of_string_of_nat: "nat_of_string (string_of_nat n) = n"
proof (induction n rule: string_of_nat.induct)
  case (1 n)
  show ?case
  proof (cases "n < 10")
    case True
    then show ?thesis
      by (simp add: string_of_nat.simps [of n] nat_of_string_def digit_value_digit_char)
  next
    case False
    with 1 have "nat_of_string (string_of_nat (n div 10)) = n div 10" by simp
    with False show ?thesis
      by (simp add: string_of_nat.simps [of n] nat_of_string_snoc digit_value_digit_char)
  qed
qed

lemma length_string_of_nat_1: "n < 10 \<Longrightarrow> length (string_of_nat n) = 1"
  by (simp add: string_of_nat.simps [of n])

lemma length_string_of_nat_2: "10 \<le> n \<Longrightarrow> n < 100 \<Longrightarrow> length (string_of_nat n) = 2"
  by (simp add: string_of_nat.simps [of n] length_string_of_nat_1)

lemma length_string_of_nat_3: "100 \<le> n \<Longrightarrow> n < 1000 \<Longrightarrow> length (string_of_nat n) = 3"
  by (simp add: string_of_nat.simps [of n] length_string_of_nat_2)

lemma length_string_of_nat_4: "1000 \<le> n \<Longrightarrow> n < 10000 \<Longrightarrow> length (string_of_nat n) = 4"
  by (simp add: string_of_nat.simps [of n] length_string_of_nat_3)

lemma length_string_of_nat_5: "10000 \<le> n \<Longrightarrow> n < 100000 \<Longrightarrow> length (string_of_nat n) = 5"
  by (simp add: string_of_nat.simps [of n] length_string_of_nat_4)

lemma length_string_of_nat_6: "100000 \<le> n \<Longrightarrow> n < 1000000 \<Longrightarrow> length (string_of_nat n) = 6"
  by (simp add: string_of_nat.simps [of n] length_string_of_nat_5)

lemma String_of_int_nonneg: "0 \<le> i \<Longrightarrow> String_of_int i = string_of_nat (nat i)"
  by (simp add: String_of_int_def)

lemma padStart_two_digits:
  assumes "m < 100"
  shows "padStart 2 ''0'' (string_of_nat m) =
     (if m < 10 then CHR ''0'' # string_of_nat m else string_of_nat m)"
  using assms
  by (simp add: padStart_def length_string_of_nat_1 length_string_of_nat_2)

lemma padded_facts:
  assumes "m < 100"
  shows "length (padStart 2 ''0'' (string_of_nat m)) = 2"
    and "list_all is_digit (padStart 2 ''0'' (string_of_nat m))"
    and "nat_of_string (padStart 2 ''0'' (string_of_nat m)) = m"
  using assms
  by (simp_all add: padStart_two_digits length_string_of_nat_1 length_string_of_nat_2
      string_of_nat_digits nat_of_string_leading_zero nat_of_string_of_nat is_digit_def)


subsection \<open>The random number in binary64\<close>

lemma excess_bits_upper: "n < 2 ^ (53 + excess_bits n)"
proof (induction n rule: excess_bits.induct)
  case (1 n)
  show ?case
  proof (cases "n < 2 ^ 53")
    case True
    then show ?thesis by (simp add: excess_bits.simps [of n])
  next
    case False
    then have unfold: "excess_bits n = Suc (excess_bits (n div 2))"
      by (simp add: excess_bits.simps [of n])
    from False 1 have "n div 2 < 2 ^ (53 + excess_bits (n div 2))" by simp
    then have "n < 2 * 2 ^ (53 + excess_bits (n div 2))" by linarith
    also have "\<dots> = 2 ^ (53 + Suc (excess_bits (n div 2)))"
      by (simp only: power_Suc add_Suc_right)
    finally show ?thesis by (simp only: unfold)
  qed
qed

lemma excess_bits_le:
  "n < 2 ^ (53 + t) \<Longrightarrow> excess_bits n \<le> t"
proof (induction n arbitrary: t rule: excess_bits.induct)
  case (1 n)
  show ?case
  proof (cases "n < 2 ^ 53")
    case True
    then show ?thesis by (simp add: excess_bits.simps [of n])
  next
    case False
    with "1.prems" obtain t' where t: "t = Suc t'"
      by (cases t) simp_all
    from "1.prems" have "n < 2 * 2 ^ (53 + t')"
      by (simp only: t power_Suc add_Suc_right)
    then have "n div 2 < 2 ^ (53 + t')" by linarith
    with 1 False have "excess_bits (n div 2) \<le> t'" by simp
    with False t show ?thesis by (simp add: excess_bits.simps [of n])
  qed
qed

lemma round53_ge_floor: "n div 2 ^ excess_bits n * 2 ^ excess_bits n \<le> round53 n"
  by (simp add: round53_def Let_def)

lemma round53_le_power: "round53 n \<le> 2 ^ (53 + excess_bits n)"
proof -
  let ?s = "excess_bits n"
  have "n div 2 ^ ?s < 2 ^ 53"
    using excess_bits_upper [of n] by (simp add: less_mult_imp_div_less power_add)
  then have "n div 2 ^ ?s + 1 \<le> 2 ^ 53" by simp
  then have "(n div 2 ^ ?s + 1) * 2 ^ ?s \<le> 2 ^ 53 * 2 ^ ?s"
    by (rule mult_le_mono1)
  moreover have "n div 2 ^ ?s * 2 ^ ?s \<le> (n div 2 ^ ?s + 1) * 2 ^ ?s" by simp
  ultimately show ?thesis
    by (simp add: round53_def Let_def power_add)
qed


lemma round53_cap:
  assumes le: "n \<le> Q * 2 ^ 20 + c" and c: "2 * c < 2 ^ 20" and Q: "2 ^ 52 \<le> Q"
    and n: "n < 2 ^ 73"
  shows "round53 n \<le> Q * 2 ^ 20"
proof -
  define s where "s = excess_bits n"
  define M :: nat where "M = 2 ^ 20"
  define q where "q = n div M"
  define rest where "rest = n mod M"
  have M: "0 < M" "2 * c < M" using c by (simp_all add: M_def)
  have split: "q * M + rest = n"
    unfolding q_def rest_def by (rule div_mult_mod_eq)
  have le': "n \<le> Q * M + c" using le by (simp add: M_def)
  have floor: "2 ^ 72 \<le> Q * M"
  proof -
    have "(2::nat) ^ 52 * 2 ^ 20 \<le> Q * 2 ^ 20" using Q by (rule mult_le_mono1)
    then show ?thesis by (simp add: M_def)
  qed
  from n have "n < 2 ^ (53 + 20)" by simp
  then have s: "s \<le> 20" unfolding s_def by (rule excess_bits_le)
  show ?thesis
  proof (cases "s = 20")
    case False
    with s have "53 + s \<le> 72" by simp
    then have "(2::nat) ^ (53 + s) \<le> 2 ^ 72"
      by (intro power_increasing) simp_all
    with round53_le_power [of n] floor show ?thesis
      unfolding s_def M_def by linarith
  next
    case True
    have round: "round53 n =
        (if 2 * rest < M \<or> (2 * rest = M \<and> even q) then q * M else (q + 1) * M)"
      using True unfolding s_def by (simp add: round53_def Let_def q_def rest_def M_def)
    have "q \<le> Q"
    proof (rule ccontr)
      assume "\<not> q \<le> Q"
      then have "Q + 1 \<le> q" by simp
      then have "(Q + 1) * M \<le> q * M" by (rule mult_le_mono1)
      with split le' M show False by (simp add: algebra_simps)
    qed
    show ?thesis
    proof (cases "q = Q")
      case False
      with \<open>q \<le> Q\<close> have "q + 1 \<le> Q" by simp
      then have up: "(q + 1) * M \<le> Q * M" by (rule mult_le_mono1)
      have "q * M \<le> (q + 1) * M" by simp
      then have down: "q * M \<le> Q * M" using up by (rule le_trans)
      have "round53 n \<le> Q * M"
      proof (cases "2 * rest < M \<or> (2 * rest = M \<and> even q)")
        case True
        then have "round53 n = q * M" by (simp only: round if_True)
        with down show ?thesis by (simp only:)
      next
        case False
        then have "round53 n = (q + 1) * M" by (simp only: round if_False)
        with up show ?thesis by (simp only:)
      qed
      then show ?thesis by (simp add: M_def)
    next
      case True
      with split le' have "rest \<le> c" by simp
      with M have "2 * rest < M" by simp
      then have "round53 n = q * M" unfolding round by simp
      with True show ?thesis by (simp add: M_def)
    qed
  qed
qed

lemma round53_product_upper:
  assumes "k < 2 ^ 53"
  shows "round53 (k * 900000) \<le> (900000 * 2 ^ 33 - 1) * 2 ^ 20"
proof (rule round53_cap)
  from assms have k: "k \<le> 2 ^ 53 - 1" by simp
  show "k * 900000 \<le> (900000 * 2 ^ 33 - 1) * 2 ^ 20 + 148576"
    using mult_le_mono1 [OF k, of 900000] by simp
  then show "k * 900000 < 2 ^ 73" by simp
  show "2 * 148576 < (2::nat) ^ 20" by simp
  show "(2::nat) ^ 52 \<le> 900000 * 2 ^ 33 - 1" by simp
qed

lemma round53_sum_upper:
  assumes "m \<le> (900000 * 2 ^ 33 - 1) * 2 ^ 20"
  shows "round53 (100000 * 2 ^ 53 + m) \<le> (1000000 * 2 ^ 33 - 1) * 2 ^ 20"
proof (rule round53_cap)
  show "100000 * 2 ^ 53 + m \<le> (1000000 * 2 ^ 33 - 1) * 2 ^ 20 + 0"
    using assms by simp
  then show "100000 * 2 ^ 53 + m < 2 ^ 73" by simp
  show "2 * 0 < (2::nat) ^ 20" by simp
  show "(2::nat) ^ 52 \<le> 1000000 * 2 ^ 33 - 1" by simp
qed

lemma round53_sum_lower:
  assumes "m \<le> (900000 * 2 ^ 33 - 1) * 2 ^ 20"
  shows "100000 * 2 ^ 53 \<le> round53 (100000 * 2 ^ 53 + m)"
proof -
  define A :: nat where "A = 100000 * 2 ^ 53"
  define n where "n = A + m"
  define s where "s = excess_bits n"
  have "n < 2 ^ (53 + 20)" using assms by (simp add: n_def A_def)
  then have s: "s \<le> 20" unfolding s_def by (rule excess_bits_le)
  then have "(2::nat) ^ s dvd 2 ^ 53" by (intro le_imp_power_dvd) simp
  then have "(2::nat) ^ s dvd 100000 * 2 ^ 53" by (rule dvd_mult)
  then have dvd: "2 ^ s dvd A" by (simp only: A_def)
  have "A \<le> n" by (simp add: n_def)
  then have "A div 2 ^ s \<le> n div 2 ^ s" by (rule div_le_mono)
  then have "A div 2 ^ s * 2 ^ s \<le> n div 2 ^ s * 2 ^ s" by (rule mult_le_mono1)
  moreover have "A div 2 ^ s * 2 ^ s = A"
    using dvd by (rule dvd_div_mult_self)
  ultimately have "A \<le> n div 2 ^ s * 2 ^ s" by simp
  also have "\<dots> \<le> round53 n" unfolding s_def by (rule round53_ge_floor)
  finally show ?thesis by (simp add: n_def A_def)
qed


text \<open>Each rounding moves a numerator below \<open>2\<^sup>7\<^sup>3\<close> by at most \<open>2\<^sup>1\<^sup>9\<close>.\<close>

lemma round53_error:
  assumes "n < 2 ^ 73"
  shows "round53 n \<le> n + 2 ^ 19" and "n \<le> round53 n + 2 ^ 19"
proof -
  define s where "s = excess_bits n"
  define M :: nat where "M = 2 ^ s"
  define q where "q = n div M"
  define rest where "rest = n mod M"
  from assms have "n < 2 ^ (53 + 20)" by simp
  then have "s \<le> 20" unfolding s_def by (rule excess_bits_le)
  then have "(2::nat) ^ s \<le> 2 ^ 20" by (intro power_increasing) simp_all
  then have M: "M \<le> 1048576" "0 < M" by (simp_all add: M_def)
  have split: "q * M + rest = n"
    unfolding q_def rest_def by (rule div_mult_mod_eq)
  have rest: "rest < M" unfolding rest_def using M by simp
  have round: "round53 n =
      (if 2 * rest < M \<or> (2 * rest = M \<and> even q) then q * M else (q + 1) * M)"
    by (simp add: round53_def Let_def q_def rest_def M_def s_def)
  have both: "round53 n \<le> n + 524288 \<and> n \<le> round53 n + 524288"
  proof (cases "2 * rest < M \<or> (2 * rest = M \<and> even q)")
    case True
    then have "round53 n = q * M" by (simp only: round if_True)
    moreover from True have "2 * rest \<le> M" by auto
    ultimately show ?thesis using split M by linarith
  next
    case False
    then have "round53 n = (q + 1) * M" by (simp only: round if_False)
    then have "round53 n = q * M + M" by (simp add: algebra_simps)
    moreover from False have "M \<le> 2 * rest" by auto
    ultimately show ?thesis using split M rest by linarith
  qed
  from both show "round53 n \<le> n + 2 ^ 19" by simp
  from both show "n \<le> round53 n + 2 ^ 19" by simp
qed

text \<open>
  Away from the ends of its interval the exact value decides: where \<open>900000 k / 2\<^sup>5\<^sup>3\<close> lies
  between \<open>n + 2\<^sup>-\<^sup>3\<^sup>3\<close> and \<open>n + 1 - 2\<^sup>-\<^sup>3\<^sup>3\<close>, line 90 gives \<open>100000 + n\<close>.
\<close>

lemma randomNumber_binary64_inside:
  assumes k: "k < 2 ^ 53"
    and lo: "n * 2 ^ 53 + 2 ^ 20 \<le> 900000 * k"
    and hi: "900000 * k + 2 ^ 20 < (n + 1) * 2 ^ 53"
  shows "randomNumber_binary64 k = 100000 + n"
proof -
  define P where "P = k * 900000"
  define M where "M = round53 P"
  define S :: nat where "S = 100000 * 2 ^ 53 + M"
  define R where "R = round53 S"
  from k have "k \<le> 2 ^ 53 - 1" by simp
  from mult_le_mono1 [OF this, of 900000] have "P < 2 ^ 73" by (simp add: P_def)
  then have M: "M \<le> P + 2 ^ 19" "P \<le> M + 2 ^ 19"
    unfolding M_def by (rule round53_error)+
  have "M \<le> (900000 * 2 ^ 33 - 1) * 2 ^ 20"
    unfolding M_def P_def using k by (rule round53_product_upper)
  then have "S < 2 ^ 73" by (simp add: S_def)
  then have R: "R \<le> S + 2 ^ 19" "S \<le> R + 2 ^ 19"
    unfolding R_def by (rule round53_error)+
  from lo have lo': "n * 9007199254740992 + 1048576 \<le> P" by (simp add: P_def mult.commute)
  from hi have hi': "P + 1048576 < (n + 1) * 9007199254740992" by (simp add: P_def mult.commute)
  have S': "S = 900719925474099200000 + M" by (simp add: S_def)
  from M R have M': "M \<le> P + 524288" "P \<le> M + 524288" "R \<le> S + 524288" "S \<le> R + 524288"
    by simp_all
  have "900719925474099200000 + n * 9007199254740992 \<le> R"
    using lo' M' S' by linarith
  then have below: "9007199254740992 * (100000 + n) \<le> R"
    by (simp add: algebra_simps)
  from hi' have "P + 1048576 < n * 9007199254740992 + 9007199254740992" by simp
  then have "R < 900719925474099200000 + n * 9007199254740992 + 9007199254740992"
    using M' S' by linarith
  then have "R < 9007199254740992 * Suc (100000 + n)"
    by (simp add: algebra_simps)
  with below have "R div 9007199254740992 = 100000 + n"
    by (rule div_nat_eqI)
  then show ?thesis
    by (simp add: randomNumber_binary64_def R_def S_def M_def P_def)
qed

text \<open>
  Rounding does not take the six digits out of their range: computed in binary64, line 90
  gives an integer between 100000 and 999999 for each of the \<open>2\<^sup>5\<^sup>3\<close> values of
  \<^verbatim>\<open>Math.random()\<close>.
\<close>

lemma randomNumber_binary64_range:
  assumes "k < 2 ^ 53"
  shows "100000 \<le> randomNumber_binary64 k" and "randomNumber_binary64 k \<le> 999999"
proof -
  let ?m = "round53 (k * 900000)"
  have m: "?m \<le> (900000 * 2 ^ 33 - 1) * 2 ^ 20"
    using assms by (rule round53_product_upper)
  have "100000 * 2 ^ 53 div 2 ^ 53 \<le> round53 (100000 * 2 ^ 53 + ?m) div 2 ^ 53"
    using round53_sum_lower [OF m] by (rule div_le_mono)
  then show "100000 \<le> randomNumber_binary64 k"
    by (simp add: randomNumber_binary64_def)
  have "round53 (100000 * 2 ^ 53 + ?m) div 2 ^ 53 \<le> (1000000 * 2 ^ 33 - 1) * 2 ^ 20 div 2 ^ 53"
    using round53_sum_upper [OF m] by (rule div_le_mono)
  then show "randomNumber_binary64 k \<le> 999999"
    by (simp add: randomNumber_binary64_def)
qed


subsection \<open>The shape of the name\<close>

lemma shape_of_parts:
  assumes "length Y = 4" "length M = 2" "length D = 2" "length R = 6"
  shows "year_digits (''image-'' @ Y @ M @ D @ ''-'' @ R @ ''.png'') = Y"
    and "month_digits (''image-'' @ Y @ M @ D @ ''-'' @ R @ ''.png'') = M"
    and "day_digits (''image-'' @ Y @ M @ D @ ''-'' @ R @ ''.png'') = D"
    and "random_digits (''image-'' @ Y @ M @ D @ ''-'' @ R @ ''.png'') = R"
    and "list_all is_digit (Y @ M @ D) \<Longrightarrow> list_all is_digit R \<Longrightarrow>
         filename_shape (''image-'' @ Y @ M @ D @ ''-'' @ R @ ''.png'')"
  using assms
  by (simp_all add: year_digits_def month_digits_def day_digits_def random_digits_def
      filename_shape_def)


text \<open>
  Claim C3. For a local date whose year is written with four digits (1000 to 9999; the
  month counted from 0 to 11, the day at most 31) and every value \<open>k / 2\<^sup>5\<^sup>3\<close> of
  \<^verbatim>\<open>Math.random()\<close>, the name matches \<^verbatim>\<open>image-\d{8}-\d{6}\.png\<close>; its eight digits are the
  year, the month (from 1) and the day, the last two padded with a zero; its six digits are
  the integer line 90 computes, which lies between 100000 and 999999. That integer is
  \<open>100000 + n\<close> wherever \<open>900000 k / 2\<^sup>5\<^sup>3\<close> lies between \<open>n + 2\<^sup>-\<^sup>3\<^sup>3\<close> and \<open>n + 1 - 2\<^sup>-\<^sup>3\<^sup>3\<close>:
  every integer of the range is written on an interval of values of \<^verbatim>\<open>Math.random()\<close> of
  the same length.
\<close>

theorem filename_of_four_digit_year:
  assumes "1000 \<le> getFullYear d" "getFullYear d \<le> 9999"
    "getMonth d \<le> 11" "getDate d \<le> 31"
  shows "filename_shape (generatePngFilename d k) \<and>
     int (nat_of_string (year_digits (generatePngFilename d k))) = getFullYear d \<and>
     nat_of_string (month_digits (generatePngFilename d k)) = getMonth d + 1 \<and>
     nat_of_string (day_digits (generatePngFilename d k)) = getDate d \<and>
     100000 \<le> nat_of_string (random_digits (generatePngFilename d k)) \<and>
     nat_of_string (random_digits (generatePngFilename d k)) \<le> 999999 \<and>
     (n * 2 ^ 53 + 2 ^ 20 \<le> 900000 * unat k \<and> 900000 * unat k + 2 ^ 20 < (n + 1) * 2 ^ 53 \<longrightarrow>
        nat_of_string (random_digits (generatePngFilename d k)) = 100000 + n)"
proof -
  define r where "r = randomNumber_binary64 (unat k)"
  let ?Y = "string_of_nat (nat (getFullYear d))"
  let ?M = "padStart 2 ''0'' (string_of_nat (getMonth d + 1))"
  let ?D = "padStart 2 ''0'' (string_of_nat (getDate d))"
  let ?R = "string_of_nat r"
  have k: "unat k < 2 ^ 53"
    using unsigned_less [of k] by simp
  have r: "100000 \<le> r" "r \<le> 999999"
    unfolding r_def using k by (rule randomNumber_binary64_range)+
  have month: "String_of_int (int (getMonth d) + 1) = string_of_nat (getMonth d + 1)"
    by (simp add: String_of_int_def nat_add_distrib)
  have day: "String_of_int (int (getDate d)) = string_of_nat (getDate d)"
    by (simp add: String_of_int_def)
  have rnd: "String_of_int (int r) = string_of_nat r"
    by (simp add: String_of_int_def)
  have "generatePngFilename d k =
      ''image-'' @ String_of_int (getFullYear d) @ ?M @ ?D @ ''-'' @ ?R @ ''.png''"
    unfolding generatePngFilename_def Let_def month day r_def [symmetric] rnd by simp
  then have name: "generatePngFilename d k = ''image-'' @ ?Y @ ?M @ ?D @ ''-'' @ ?R @ ''.png''"
    using assms(1) by (simp add: String_of_int_nonneg)
  have lens: "length ?Y = 4" "length ?M = 2" "length ?D = 2" "length ?R = 6"
    using assms r
    by (simp_all add: length_string_of_nat_4 length_string_of_nat_6 padded_facts)
  have digs: "list_all is_digit (?Y @ ?M @ ?D)" "list_all is_digit ?R"
    using assms(3,4) by (simp_all add: string_of_nat_digits padded_facts)
  have vals: "nat_of_string ?Y = nat (getFullYear d)" "nat_of_string ?M = getMonth d + 1"
    "nat_of_string ?D = getDate d" "nat_of_string ?R = r"
    using assms(3,4) by (simp_all add: nat_of_string_of_nat padded_facts)
  have "filename_shape (generatePngFilename d k)"
    unfolding name using lens digs by (rule shape_of_parts)
  moreover have "int (nat_of_string (year_digits (generatePngFilename d k))) = getFullYear d"
    unfolding name shape_of_parts(1) [OF lens] using assms(1) by (simp add: vals)
  moreover have "nat_of_string (month_digits (generatePngFilename d k)) = getMonth d + 1"
    unfolding name shape_of_parts(2) [OF lens] by (rule vals)
  moreover have "nat_of_string (day_digits (generatePngFilename d k)) = getDate d"
    unfolding name shape_of_parts(3) [OF lens] by (rule vals)
  moreover have r_eq: "nat_of_string (random_digits (generatePngFilename d k)) = r"
    unfolding name shape_of_parts(4) [OF lens] by (rule vals)
  moreover have "100000 \<le> nat_of_string (random_digits (generatePngFilename d k))"
    and "nat_of_string (random_digits (generatePngFilename d k)) \<le> 999999"
    using r by (simp_all only: r_eq)
  moreover have "nat_of_string (random_digits (generatePngFilename d k)) = 100000 + n"
    if "n * 2 ^ 53 + 2 ^ 20 \<le> 900000 * unat k" "900000 * unat k + 2 ^ 20 < (n + 1) * 2 ^ 53"
    unfolding r_eq r_def using k that by (rule randomNumber_binary64_inside)
  ultimately show ?thesis by blast
qed

theorem filename_of_four_digit_year_witness:
  "1000 \<le> getFullYear sample_date \<and> getFullYear sample_date \<le> 9999 \<and>
   getMonth sample_date \<le> 11 \<and> getDate sample_date \<le> 31 \<and>
   457031 * 2 ^ 53 + 2 ^ 20 \<le> 900000 * unat (4573968371548160 :: 53 word) \<and>
   900000 * unat (4573968371548160 :: 53 word) + 2 ^ 20 < (457031 + 1) * 2 ^ 53 \<and>
   generatePngFilename sample_date 4573968371548160 = ''image-20240305-557031.png'' \<and>
   filename_shape (generatePngFilename sample_date 4573968371548160) \<and>
   nat_of_string (year_digits (generatePngFilename sample_date 4573968371548160)) = 2024 \<and>
   nat_of_string (month_digits (generatePngFilename sample_date 4573968371548160)) = 3 \<and>
   nat_of_string (day_digits (generatePngFilename sample_date 4573968371548160)) = 5 \<and>
   nat_of_string (random_digits (generatePngFilename sample_date 4573968371548160)) = 557031"
proof -
  let ?k = "4573968371548160 :: 53 word"
  have date: "1000 \<le> getFullYear sample_date" "getFullYear sample_date \<le> 9999"
    "getMonth sample_date \<le> 11" "getDate sample_date \<le> 31"
    by (simp_all add: sample_date_def)
  have inside: "457031 * 2 ^ 53 + 2 ^ 20 \<le> 900000 * unat ?k"
    "900000 * unat ?k + 2 ^ 20 < (457031 + 1) * 2 ^ 53"
    by simp_all
  have name: "generatePngFilename sample_date ?k = ''image-20240305-557031.png''"
    by (simp add: generatePngFilename_def sample_date_def String_of_int_def padStart_def
        string_of_nat.simps digit_char_def randomNumber_binary64_def round53_def Let_def
        excess_bits.simps)
  from filename_of_four_digit_year [OF date, of ?k 457031] inside
  have "filename_shape (generatePngFilename sample_date ?k)"
    and "int (nat_of_string (year_digits (generatePngFilename sample_date ?k))) =
      getFullYear sample_date"
    and "nat_of_string (month_digits (generatePngFilename sample_date ?k)) =
      getMonth sample_date + 1"
    and "nat_of_string (day_digits (generatePngFilename sample_date ?k)) =
      getDate sample_date"
    and "nat_of_string (random_digits (generatePngFilename sample_date ?k)) = 100000 + 457031"
    by blast+
  then show ?thesis
    using date inside name by (simp add: sample_date_def)
qed

end
